theory Spec2Isabelle
  imports Main "HOL-Library.Sublist"
begin

section \<open>Browser state\<close>

text \<open>
  The pages and utilities of the dashboard touch two pieces of browser state: local
  storage (string keys to string values; \<open>getItem\<close> of an absent key is \<open>null\<close>,
  here \<open>None\<close>) and the current location (\<open>window.location.href\<close>, also the target
  of the router's \<open>navigate\<close>).
\<close>

record browser =
  storage :: "string \<rightharpoonup> string"
  href :: string

definition getItem :: "browser \<Rightarrow> string \<Rightarrow> string option" where
  "getItem b k = storage b k"

definition setItem :: "string \<Rightarrow> string \<Rightarrow> browser \<Rightarrow> browser" where
  "setItem k v b = b\<lparr>storage := (storage b)(k \<mapsto> v)\<rparr>"

definition removeItem :: "string \<Rightarrow> browser \<Rightarrow> browser" where
  "removeItem k b = b\<lparr>storage := (storage b)(k := None)\<rparr>"

definition navigate :: "string \<Rightarrow> browser \<Rightarrow> browser" where
  "navigate p b = b\<lparr>href := p\<rparr>"

subsection \<open>config: STORAGE_KEYS\<close>

definition STORAGE_TOKEN :: string where
  "STORAGE_TOKEN = ''company_token''"

definition STORAGE_USER :: string where
  "STORAGE_USER = ''company_user''"

definition STORAGE_REFRESH_TOKEN :: string where
  "STORAGE_REFRESH_TOKEN = ''company_refresh_token''"

section \<open>util/index.ts\<close>

subsection \<open>slice\<close>

text \<open>
  \<open>Array.prototype.slice\<close> and \<open>String.prototype.slice\<close> on integer arguments: a
  negative index counts from the end, both indices are clamped to the length, and an
  empty range gives the empty sequence.
\<close>

definition js_slice :: "'a list \<Rightarrow> int \<Rightarrow> int \<Rightarrow> 'a list" where
  "js_slice xs start fin =
     (let len = int (length xs);
          k = (if start < 0 then max (len + start) 0 else min start len);
          final = (if fin < 0 then max (len + fin) 0 else min fin len)
      in take (nat (final - k)) (drop (nat k) xs))"

subsection \<open>truncate\<close>

text \<open>
  \<^verbatim>\<open>if (!text || text.length <= maxLength) return text;
  return text.slice(0, maxLength - suffix.length) + suffix;\<close>
  The empty string is the only falsy string. \<open>maxLength\<close> is an integer.
\<close>

definition truncate_text :: "string \<Rightarrow> int \<Rightarrow> string \<Rightarrow> string" where
  "truncate_text text maxLength suf =
     (if text = [] \<or> int (length text) \<le> maxLength then text
      else js_slice text 0 (maxLength - int (length suf)) @ suf)"

definition truncate_text_default :: "string \<Rightarrow> int \<Rightarrow> string" where
  "truncate_text_default text maxLength = truncate_text text maxLength ''...''"

subsection \<open>isAuthenticated\<close>

text \<open>
  \<^verbatim>\<open>return !!localStorage.getItem(STORAGE_KEYS.TOKEN);\<close>
  \<open>null\<close> and the empty string are the falsy results of \<open>getItem\<close>.
\<close>

definition truthy_item :: "string option \<Rightarrow> bool" where
  "truthy_item v = (case v of None \<Rightarrow> False | Some s \<Rightarrow> s \<noteq> [])"

definition isAuthenticated :: "browser \<Rightarrow> bool" where
  "isAuthenticated b = truthy_item (getItem b STORAGE_TOKEN)"

subsection \<open>chunk\<close>

text \<open>
  \<^verbatim>\<open>const chunks = [];
  for (let i = 0; i < array.length; i += size) chunks.push(array.slice(i, i + size));
  return chunks;\<close>
  With \<open>size \<le> 0\<close> the index never passes the length and the loop does not end, so
  the loop is a partial function: \<open>None\<close> is "does not return".
\<close>

partial_function (option) chunk_loop ::
    "'a list \<Rightarrow> int \<Rightarrow> int \<Rightarrow> 'a list list \<Rightarrow> 'a list list option" where
  "chunk_loop array sz i chunks =
     (if i < int (length array)
      then chunk_loop array sz (i + sz) (chunks @ [js_slice array i (i + sz)])
      else Some chunks)"

declare chunk_loop.simps [code]

definition chunk :: "'a list \<Rightarrow> int \<Rightarrow> 'a list list option" where
  "chunk array sz = chunk_loop array sz 0 []"

subsection \<open>omit\<close>

text \<open>
  \<^verbatim>\<open>const result = { ...obj };
  keys.forEach((key) => { delete result[key]; });
  return result;\<close>
  Objects are mutable and shared by reference, so they live in a heap: a list of
  objects, an object's address being its index. An object is the map of its own
  properties. The spread allocates a new object holding the properties of \<open>obj\<close>;
  every \<open>delete\<close> then updates the heap at the new address. \<open>obj\<close> is the address
  of an object of the heap.
\<close>

type_synonym 'v obj = "string \<rightharpoonup> 'v"
type_synonym 'v heap = "'v obj list"

definition alloc :: "'v obj \<Rightarrow> 'v heap \<Rightarrow> nat \<times> 'v heap" where
  "alloc ob h = (length h, h @ [ob])"

definition delete_prop :: "nat \<Rightarrow> string \<Rightarrow> 'v heap \<Rightarrow> 'v heap" where
  "delete_prop r key h = h[r := (h ! r)(key := None)]"

definition omit :: "'v heap \<Rightarrow> nat \<Rightarrow> string list \<Rightarrow> nat \<times> 'v heap" where
  "omit h obj keys =
     (let (result, h1) = alloc (h ! obj) h
      in (result, fold (delete_prop result) keys h1))"

section \<open>pages: the mock authentication\<close>

text \<open>
  What the mock back ends resolve to: \<^verbatim>\<open>{ ok: true, token, name }\<close> or
  \<^verbatim>\<open>{ ok: false, error }\<close>. A field the object literal does not have reads as
  \<open>undefined\<close>, here \<open>None\<close>.
\<close>

record auth_result =
  res_ok :: bool
  res_token :: "string option"
  res_name :: "string option"
  res_error :: "string option"

text \<open>\<open>String.prototype.includes\<close>: the argument occurs as a contiguous substring.\<close>

primrec js_includes :: "string \<Rightarrow> string \<Rightarrow> bool" where
  "js_includes [] sub = (sub = [])"
| "js_includes (c # cs) sub = (prefix sub (c # cs) \<or> js_includes cs sub)"

subsection \<open>pages/auth/Login.tsx\<close>

text \<open>
  \<^verbatim>\<open>await new Promise((r) => setTimeout(r, 500));
  if (email === "user@company.com" && password === "password")
    return { ok: true, token: "demo-token-123", name: "Demo User" };
  return { ok: false, error: "Invalid email or password" };\<close>
  The first component is the delay handed to \<open>setTimeout\<close>, in milliseconds.
\<close>

definition loginApi :: "string \<Rightarrow> string \<Rightarrow> nat \<times> auth_result" where
  "loginApi email password =
     (500,
      if email = ''user@company.com'' \<and> password = ''password''
      then \<lparr>res_ok = True, res_token = Some ''demo-token-123'',
            res_name = Some ''Demo User'', res_error = None\<rparr>
      else \<lparr>res_ok = False, res_token = None, res_name = None,
            res_error = Some ''Invalid email or password''\<rparr>)"

text \<open>
  \<open>JSON.stringify\<close> of a string: the text between double quotes, with the quote, the
  backslash and the control characters escaped. Characters are the code units below 256.
\<close>

definition hex_digit :: "nat \<Rightarrow> char" where
  "hex_digit n = ''0123456789abcdef'' ! (n mod 16)"

definition json_escape :: "char \<Rightarrow> string" where
  "json_escape c =
     (if c = CHR 0x22 then [CHR 0x5C, CHR 0x22]
      else if c = CHR 0x5C then [CHR 0x5C, CHR 0x5C]
      else if c = CHR 0x08 then [CHR 0x5C, CHR ''b'']
      else if c = CHR 0x0C then [CHR 0x5C, CHR ''f'']
      else if c = CHR 0x0A then [CHR 0x5C, CHR ''n'']
      else if c = CHR 0x0D then [CHR 0x5C, CHR ''r'']
      else if c = CHR 0x09 then [CHR 0x5C, CHR ''t'']
      else if (of_char c :: nat) < 32
           then [CHR 0x5C, CHR ''u'', CHR ''0'', CHR ''0'',
                 hex_digit (of_char c div 16), hex_digit (of_char c)]
      else [c])"

definition json_quote :: "string \<Rightarrow> string" where
  "json_quote s = [CHR 0x22] @ concat (map json_escape s) @ [CHR 0x22]"

text \<open>
  \<^verbatim>\<open>JSON.stringify({ name, email })\<close>: a property whose value is \<open>undefined\<close> is
  left out.
\<close>

definition stringify_user :: "string option \<Rightarrow> string \<Rightarrow> string" where
  "stringify_user name email =
     ''{'' @ (case name of None \<Rightarrow> [] | Some n \<Rightarrow> json_quote ''name'' @ '':'' @ json_quote n @ '','')
          @ json_quote ''email'' @ '':'' @ json_quote email @ ''}''"

text \<open>The state of a form: the \<open>useState\<close> cells of the page component.\<close>

record login_form =
  l_email :: string
  l_password :: string
  l_loading :: bool
  l_error :: string

text \<open>\<open>a || b\<close> on an optional string: \<open>undefined\<close> and the empty string are falsy.\<close>

definition or_else :: "string option \<Rightarrow> string \<Rightarrow> string" where
  "or_else a b = (case a of None \<Rightarrow> b | Some s \<Rightarrow> if s = [] then b else s)"

text \<open>
  \<^verbatim>\<open>setError(""); setLoading(true);
  const res = await loginApi(email, password);
  setLoading(false);
  if (res.ok) {
    localStorage.setItem("company_token", res.token);
    localStorage.setItem("company_user", JSON.stringify({ name: res.name, email }));
    navigate("/dashboard");
  } else { setError(res.error || "Login failed"); }\<close>
  \<open>setItem\<close> stores the string conversion of its argument, \<open>"undefined"\<close> for
  \<open>undefined\<close>.
\<close>

definition Login_handleSubmit :: "login_form \<Rightarrow> browser \<Rightarrow> login_form \<times> browser" where
  "Login_handleSubmit form b =
     (let form1 = form\<lparr>l_error := [], l_loading := True\<rparr>;
          res = snd (loginApi (l_email form) (l_password form));
          form2 = form1\<lparr>l_loading := False\<rparr>
      in if res_ok res
         then (form2,
               navigate ''/dashboard''
                 (setItem ''company_user'' (stringify_user (res_name res) (l_email form))
                   (setItem ''company_token''
                      (case res_token res of None \<Rightarrow> ''undefined'' | Some t \<Rightarrow> t) b)))
         else (form2\<lparr>l_error := or_else (res_error res) ''Login failed''\<rparr>, b))"

subsection \<open>pages/auth/Register.tsx\<close>

text \<open>
  \<^verbatim>\<open>await new Promise((r) => setTimeout(r, 500));
  if (email.includes("@") && password.length >= 4)
    return { ok: true, token: "demo-token-456", name };
  return { ok: false, error: "Invalid registration details" };\<close>
\<close>

definition registerApi :: "string \<Rightarrow> string \<Rightarrow> string \<Rightarrow> nat \<times> auth_result" where
  "registerApi name email password =
     (500,
      if js_includes email ''@'' \<and> 4 \<le> length password
      then \<lparr>res_ok = True, res_token = Some ''demo-token-456'',
            res_name = Some name, res_error = None\<rparr>
      else \<lparr>res_ok = False, res_token = None, res_name = None,
            res_error = Some ''Invalid registration details''\<rparr>)"

record register_form =
  r_name :: string
  r_email :: string
  r_password :: string
  r_loading :: bool
  r_error :: string

text \<open>
  \<^verbatim>\<open>if (res.ok) {
    if (res.token) { localStorage.setItem("company_token", res.token); }
    localStorage.setItem("company_user", JSON.stringify({ name, email }));
    navigate("/dashboard");
  } else { setError(res.error || "Registration failed"); }\<close>
\<close>

definition Register_handleSubmit ::
    "register_form \<Rightarrow> browser \<Rightarrow> register_form \<times> browser" where
  "Register_handleSubmit form b =
     (let form1 = form\<lparr>r_error := [], r_loading := True\<rparr>;
          res = snd (registerApi (r_name form) (r_email form) (r_password form));
          form2 = form1\<lparr>r_loading := False\<rparr>
      in if res_ok res
         then (form2,
               navigate ''/dashboard''
                 (setItem ''company_user'' (stringify_user (Some (r_name form)) (r_email form))
                   (case res_token res of
                      None \<Rightarrow> b
                    | Some t \<Rightarrow> if t = [] then b else setItem ''company_token'' t b)))
         else (form2\<lparr>r_error := or_else (res_error res) ''Registration failed''\<rparr>, b))"

subsection \<open>pages/Dashboard.tsx\<close>

text \<open>
  \<^verbatim>\<open>localStorage.removeItem("company_token");
  localStorage.removeItem("company_user");
  navigate("/login");\<close>
\<close>

definition handleLogout :: "browser \<Rightarrow> browser" where
  "handleLogout b =
     navigate ''/login'' (removeItem ''company_user'' (removeItem ''company_token'' b))"

section \<open>util/config.ts\<close>

text \<open>
  \<open>API_CONFIG.BASE_URL\<close> is \<^verbatim>\<open>process.env.REACT_APP_API_BASE_URL || "http://localhost:3001"\<close>;
  the environment variable is a parameter.
\<close>

definition API_URL :: "string option \<Rightarrow> string" where
  "API_URL env = or_else env ''http://localhost:3001'' @ ''/api/'' @ ''v1''"

definition HTTP_UNAUTHORIZED :: nat where "HTTP_UNAUTHORIZED = 401"
definition HTTP_FORBIDDEN :: nat where "HTTP_FORBIDDEN = 403"
definition HTTP_NOT_FOUND :: nat where "HTTP_NOT_FOUND = 404"
definition HTTP_UNPROCESSABLE_ENTITY :: nat where "HTTP_UNPROCESSABLE_ENTITY = 422"

definition MSG_NETWORK_ERROR :: string where
  "MSG_NETWORK_ERROR = ''Network error. Please check your connection.''"
definition MSG_UNAUTHORIZED :: string where
  "MSG_UNAUTHORIZED = ''You are not authorized. Please login again.''"
definition MSG_FORBIDDEN :: string where
  "MSG_FORBIDDEN = ''You don't have permission to access this resource.''"
definition MSG_NOT_FOUND :: string where
  "MSG_NOT_FOUND = ''The requested resource was not found.''"
definition MSG_VALIDATION_ERROR :: string where
  "MSG_VALIDATION_ERROR = ''Please check your input and try again.''"
definition MSG_SERVER_ERROR :: string where
  "MSG_SERVER_ERROR = ''Something went wrong on our end. Please try again later.''"
definition MSG_TIMEOUT :: string where
  "MSG_TIMEOUT = ''Request timeout. Please try again.''"
definition MSG_UNKNOWN :: string where
  "MSG_UNKNOWN = ''An unknown error occurred.''"

section \<open>util/request.ts\<close>

subsection \<open>Values and errors\<close>

text \<open>
  What \<open>parseResponse\<close> can produce: a parsed JSON value, a text, or a blob. A number
  is kept as its decimal rendering, the string \<open>String(n)\<close> returns; an object as the
  list of its properties.
\<close>

datatype js_value =
    JNull | JBool bool | JNum string | JStr string
  | JArr "js_value list" | JObj "(string \<times> js_value) list" | JBlob

text \<open>
  An error object of the platform (\<open>TypeError\<close>, \<open>SyntaxError\<close>, the
  \<open>AbortError\<close> DOMException): its \<open>name\<close> and its \<open>message\<close>.
\<close>

datatype dom_error = JsError (err_name: string) (err_text: string)

text \<open>The \<open>data\<close> argument of the \<open>ApiError\<close> constructor.\<close>

datatype api_data = NoData | Parsed js_value | Caught dom_error

record api_error =
  err_message :: string
  err_status :: nat
  err_data :: api_data
  err_errors :: "js_value option"

text \<open>
  Everything a \<open>throw\<close> of this module can carry: an \<open>ApiError\<close>, another error
  object, or \<open>undefined\<close> (the initial value of \<open>lastError\<close> in \<open>retryRequest\<close>).
\<close>

datatype js_exn = ApiErr api_error | OtherErr dom_error | Undefined

record api_response =
  rsp_data :: js_value
  rsp_message :: "js_value option"
  rsp_success :: bool
  rsp_status :: nat
  rsp_errors :: "js_value option"

text \<open>
  Reading one of the properties \<open>message\<close>, \<open>data\<close>, \<open>errors\<close>: \<open>null\<close> has no
  properties and the read throws a \<open>TypeError\<close>; an object gives the property or
  \<open>undefined\<close> (\<open>None\<close>); strings, numbers, booleans, arrays and blobs have none of the
  three.
\<close>

definition get_prop :: "js_value \<Rightarrow> string \<Rightarrow> dom_error + js_value option" where
  "get_prop v key =
     (case v of
        JNull \<Rightarrow> Inl (JsError ''TypeError''
                   (''Cannot read properties of null (reading '' @ [CHR 0x27] @ key
                      @ [CHR 0x27] @ '')''))
      | JObj kvs \<Rightarrow> Inr (map_of kvs key)
      | _ \<Rightarrow> Inr None)"

text \<open>\<open>data?.errors\<close> in the constructor: no throw on a missing \<open>data\<close>.\<close>

definition optional_errors :: "api_data \<Rightarrow> js_value option" where
  "optional_errors d =
     (case d of
        Parsed (JObj kvs) \<Rightarrow> map_of kvs ''errors''
      | _ \<Rightarrow> None)"

definition truthy :: "js_value option \<Rightarrow> bool" where
  "truthy v =
     (case v of
        None \<Rightarrow> False
      | Some JNull \<Rightarrow> False
      | Some (JBool b) \<Rightarrow> b
      | Some (JNum s) \<Rightarrow> s \<noteq> ''0'' \<and> s \<noteq> ''NaN''
      | Some (JStr s) \<Rightarrow> s \<noteq> []
      | Some _ \<Rightarrow> True)"

fun join :: "string \<Rightarrow> string list \<Rightarrow> string" where
  "join sep [] = []"
| "join sep [x] = x"
| "join sep (x # y # ys) = x @ sep @ join sep (y # ys)"

text \<open>
  The string conversion the \<open>Error\<close> constructor applies to its message. An array
  joins its elements with commas, \<open>null\<close> elements as empty strings. A parsed object
  converts through \<open>Object.prototype.toString\<close>, unless it has a property of its own
  named \<open>toString\<close>: that one is not callable, and the conversion throws a
  \<open>TypeError\<close> (\<open>None\<close>).
\<close>

fun js_to_string :: "js_value \<Rightarrow> string option" where
  "js_to_string JNull = Some ''null''"
| "js_to_string (JBool b) = Some (if b then ''true'' else ''false'')"
| "js_to_string (JNum s) = Some s"
| "js_to_string (JStr s) = Some s"
| "js_to_string (JArr xs) =
     map_option (join '','')
       (those (map (\<lambda>x. if x = JNull then Some [] else js_to_string x) xs))"
| "js_to_string (JObj kvs) =
     (if map_of kvs ''toString'' = None then Some ''[object Object]'' else None)"
| "js_to_string JBlob = Some ''[object Blob]''"

text \<open>The decimal digits of a status code, for \<^verbatim>\<open>`HTTP ${response.status}`\<close>.\<close>

definition dec_digit :: "nat \<Rightarrow> char" where
  "dec_digit d = ''0123456789'' ! d"

fun string_of_nat :: "nat \<Rightarrow> string" where
  "string_of_nat n =
     (if 10 \<le> n then string_of_nat (n div 10) @ [dec_digit (n mod 10)] else [dec_digit n])"

text \<open>
  \<^verbatim>\<open>constructor(message, status, data) {
    super(message); this.name = "ApiError";
    this.status = status; this.data = data; this.errors = data?.errors; }\<close>
\<close>

definition ApiError :: "string \<Rightarrow> nat \<Rightarrow> api_data \<Rightarrow> api_error" where
  "ApiError message st d =
     \<lparr>err_message = message, err_status = st, err_data = d,
      err_errors = optional_errors d\<rparr>"

subsection \<open>Credentials\<close>

text \<open>
  A browser can deny a document the access to its storage; reading
  \<open>window.localStorage\<close> then throws a \<open>SecurityError\<close> DOMException. For the
  wrapper this is a parameter \<open>access\<close>: \<open>None\<close> when storage is available, the error
  thrown when it is not. Every statement that touches \<open>localStorage\<close> goes through
  \<open>with_storage\<close>.
\<close>

definition with_storage :: "dom_error option \<Rightarrow> 'a \<Rightarrow> dom_error + 'a" where
  "with_storage access v = (case access of None \<Rightarrow> Inr v | Some e \<Rightarrow> Inl e)"

text \<open>\<^verbatim>\<open>return localStorage.getItem(STORAGE_KEYS.TOKEN);\<close>\<close>

definition getAuthToken :: "dom_error option \<Rightarrow> browser \<Rightarrow> dom_error + string option" where
  "getAuthToken access b = with_storage access (getItem b STORAGE_TOKEN)"

text \<open>
  \<^verbatim>\<open>localStorage.removeItem(STORAGE_KEYS.TOKEN);
  localStorage.removeItem(STORAGE_KEYS.USER);
  localStorage.removeItem(STORAGE_KEYS.REFRESH_TOKEN);\<close>
  Without access the first statement throws and nothing is removed.
\<close>

definition clearAuthData :: "dom_error option \<Rightarrow> browser \<Rightarrow> dom_error + browser" where
  "clearAuthData access b =
     with_storage access
       (removeItem STORAGE_REFRESH_TOKEN (removeItem STORAGE_USER (removeItem STORAGE_TOKEN b)))"

text \<open>\<^verbatim>\<open>clearAuthData(); window.location.href = "/login";\<close>\<close>

definition redirectToLogin :: "dom_error option \<Rightarrow> browser \<Rightarrow> dom_error + browser" where
  "redirectToLogin access b =
     (case clearAuthData access b of
        Inl e \<Rightarrow> Inl e
      | Inr b' \<Rightarrow> Inr (b'\<lparr>href := ''/login''\<rparr>))"

subsection \<open>The network\<close>

text \<open>
  A \<open>Response\<close>, as far as the wrapper looks at it: the status, the \<open>content-type\<close>
  header (\<open>null\<close> when absent), and what each of the body readers \<open>json()\<close>,
  \<open>text()\<close>, \<open>blob()\<close> settles to when called. \<open>ok\<close> is a status from 200 to 299.
\<close>

record response =
  resp_status :: nat
  content_type :: "string option"
  resp_json :: "dom_error + js_value"
  resp_text :: "dom_error + string"
  resp_blob :: "dom_error + unit"

definition resp_ok :: "response \<Rightarrow> bool" where
  "resp_ok r = (200 \<le> resp_status r \<and> resp_status r \<le> 299)"

text \<open>
  What is handed to \<open>fetch\<close>: the remaining \<open>RequestInit\<close> fields and the headers.
  \<open>fetch\<close> itself is a parameter: given the URL, the init, the headers and the
  delay after which the abort timer fires, it resolves to a response or rejects with an
  error object (the \<open>AbortError\<close> when the timer fired first).
\<close>

record request_init =
  init_method :: "string option"
  init_body :: "string option"

type_synonym fetch_fn =
  "string \<Rightarrow> request_init \<Rightarrow> (string \<rightharpoonup> string) \<Rightarrow> nat \<Rightarrow> dom_error + response"

record request_options =
  opt_timeout :: "nat option"
  opt_requiresAuth :: "bool option"
  opt_baseURL :: "string option"
  opt_headers :: "(string \<times> string) list option"
  opt_init :: request_init

text \<open>
  \<^verbatim>\<open>const { timeout = 30000, ...fetchOptions } = options;
  try { const response = await fetch(url, {...}); clearTimeout(timeoutId); return response; }
  catch (error) { clearTimeout(timeoutId);
    if (error.name === "AbortError") throw new ApiError(ERROR_MESSAGES.TIMEOUT, 408);
    throw error; }\<close>
\<close>

definition fetchWithTimeout ::
    "fetch_fn \<Rightarrow> string \<Rightarrow> nat option \<Rightarrow> request_init \<Rightarrow> (string \<rightharpoonup> string)
       \<Rightarrow> js_exn + response" where
  "fetchWithTimeout fetch url tmo init hdrs =
     (case fetch url init hdrs (case tmo of None \<Rightarrow> 30000 | Some t \<Rightarrow> t) of
        Inr response \<Rightarrow> Inr response
      | Inl error \<Rightarrow>
          if err_name error = ''AbortError'' then Inl (ApiErr (ApiError MSG_TIMEOUT 408 NoData))
          else Inl (OtherErr error))"

text \<open>
  \<open>parseResponse\<close>: by content type JSON, text or blob; with any other or no content
  type, JSON first and text when that throws:
  \<^verbatim>\<open>try { return await response.json(); } catch { return response.text(); }\<close>
  A body can be read once. \<open>json()\<close> reads it before it parses, so when \<open>json()\<close>
  has rejected, the body is used up and \<open>text()\<close> rejects with a \<open>TypeError\<close>.
\<close>

definition as_text :: "dom_error + string \<Rightarrow> dom_error + js_value" where
  "as_text t = (case t of Inl e \<Rightarrow> Inl e | Inr s \<Rightarrow> Inr (JStr s))"

definition as_blob :: "dom_error + unit \<Rightarrow> dom_error + js_value" where
  "as_blob t = (case t of Inl e \<Rightarrow> Inl e | Inr _ \<Rightarrow> Inr JBlob)"

definition json_or_text :: "response \<Rightarrow> dom_error + js_value" where
  "json_or_text r =
     (case resp_json r of
        Inr v \<Rightarrow> Inr v
      | Inl _ \<Rightarrow> Inl (JsError ''TypeError'' ''Body is unusable: Body has already been read''))"

definition parseResponse :: "response \<Rightarrow> dom_error + js_value" where
  "parseResponse r =
     (case content_type r of
        None \<Rightarrow> json_or_text r
      | Some ct \<Rightarrow>
          if js_includes ct ''application/json'' then resp_json r
          else if js_includes ct ''text/'' then as_text (resp_text r)
          else if js_includes ct ''application/pdf'' then as_blob (resp_blob r)
          else json_or_text r)"

text \<open>
  \<open>buildHeaders\<close>: the content type, then the custom headers in their order, then the
  bearer token; without a token (\<open>null\<close> or empty) it throws the 401 error. The token
  is read from storage only when \<open>requiresAuth\<close> is set, and that read can throw.
\<close>

definition buildHeaders ::
    "bool \<Rightarrow> (string \<times> string) list option \<Rightarrow> dom_error option \<Rightarrow> browser
       \<Rightarrow> js_exn + (string \<rightharpoonup> string)" where
  "buildHeaders requiresAuth customHeaders access b =
     (let headers0 = [''Content-Type'' \<mapsto> ''application/json''];
          headers1 = (case customHeaders of
                        None \<Rightarrow> headers0
                      | Some kvs \<Rightarrow> fold (\<lambda>(key, v) h. h(key \<mapsto> v)) kvs headers0)
      in if requiresAuth
         then (case getAuthToken access b of
                 Inl e \<Rightarrow> Inl (OtherErr e)
               | Inr None \<Rightarrow> Inl (ApiErr (ApiError MSG_UNAUTHORIZED HTTP_UNAUTHORIZED NoData))
               | Inr (Some token) \<Rightarrow>
                   if token = []
                   then Inl (ApiErr (ApiError MSG_UNAUTHORIZED HTTP_UNAUTHORIZED NoData))
                   else Inr (headers1(''Authorization'' \<mapsto> ''Bearer '' @ token)))
         else Inr headers1)"

subsection \<open>request\<close>

text \<open>
  \<^verbatim>\<open>const url = endpoint.startsWith("http") ? endpoint
    : `${baseURL}${endpoint.startsWith("/") ? endpoint : `/${endpoint}`}`;\<close>
\<close>

definition request_url :: "string \<Rightarrow> string \<Rightarrow> string" where
  "request_url baseURL endpoint =
     (if prefix ''http'' endpoint then endpoint
      else baseURL @ (if prefix ''/'' endpoint then endpoint else ''/'' @ endpoint))"

text \<open>
  \<^verbatim>\<open>throw new ApiError(data.message || fallback, status, data)\<close>: what is thrown is
  the \<open>TypeError\<close> of the property read or of the string conversion of the message,
  and the \<open>ApiError\<close> otherwise.
\<close>

definition message_or :: "js_value option \<Rightarrow> string \<Rightarrow> dom_error + string" where
  "message_or m fallback =
     (case m of
        None \<Rightarrow> Inr fallback
      | Some v \<Rightarrow>
          if truthy m
          then (case js_to_string v of
                  None \<Rightarrow> Inl (JsError ''TypeError'' ''Cannot convert object to primitive value'')
                | Some s \<Rightarrow> Inr s)
          else Inr fallback)"

definition throw_with_message :: "js_value \<Rightarrow> string \<Rightarrow> nat \<Rightarrow> js_exn" where
  "throw_with_message data fallback st =
     (case get_prop data ''message'' of
        Inl e \<Rightarrow> OtherErr e
      | Inr m \<Rightarrow>
          (case message_or m fallback of
             Inl e \<Rightarrow> OtherErr e
           | Inr msg \<Rightarrow> ApiErr (ApiError msg st (Parsed data))))"

text \<open>
  The status dispatch of \<open>request\<close>, after the body has been parsed into \<open>data\<close>:
  401 (log out and redirect), 403, 404, 422, 500 and above, any other status that is
  not \<open>ok\<close>, and the successful response. Reading a property of \<open>data\<close> can throw,
  and so can \<open>redirectToLogin\<close>, before the 401 error is built.
\<close>

definition handle_response ::
    "dom_error option \<Rightarrow> response \<Rightarrow> js_value \<Rightarrow> browser
       \<Rightarrow> (js_exn + api_response) \<times> browser" where
  "handle_response access response data b =
     (let st = resp_status response in
      if st = HTTP_UNAUTHORIZED
      then (case redirectToLogin access b of
              Inl e \<Rightarrow> (Inl (OtherErr e), b)
            | Inr b' \<Rightarrow>
                (Inl (ApiErr (ApiError MSG_UNAUTHORIZED HTTP_UNAUTHORIZED (Parsed data))), b'))
      else if st = HTTP_FORBIDDEN
      then (Inl (ApiErr (ApiError MSG_FORBIDDEN HTTP_FORBIDDEN (Parsed data))), b)
      else if st = HTTP_NOT_FOUND
      then (Inl (ApiErr (ApiError MSG_NOT_FOUND HTTP_NOT_FOUND (Parsed data))), b)
      else if st = HTTP_UNPROCESSABLE_ENTITY
      then (Inl (throw_with_message data MSG_VALIDATION_ERROR HTTP_UNPROCESSABLE_ENTITY), b)
      else if 500 \<le> st
      then (Inl (ApiErr (ApiError MSG_SERVER_ERROR st (Parsed data))), b)
      else if \<not> resp_ok response
      then (Inl (throw_with_message data (''HTTP '' @ string_of_nat st) st), b)
      else (case get_prop data ''data'' of
              Inl e \<Rightarrow> (Inl (OtherErr e), b)
            | Inr d \<Rightarrow>
                (case get_prop data ''message'' of
                   Inl e \<Rightarrow> (Inl (OtherErr e), b)
                 | Inr m \<Rightarrow>
                     (case get_prop data ''errors'' of
                        Inl e \<Rightarrow> (Inl (OtherErr e), b)
                      | Inr es \<Rightarrow>
                          (Inr \<lparr>rsp_data = (case d of None \<Rightarrow> data | Some v \<Rightarrow> v),
                                rsp_message = m, rsp_success = True,
                                rsp_status = st, rsp_errors = es\<rparr>, b)))))"

text \<open>The body of the \<open>try\<close> block: fetch, parse, dispatch on the status.\<close>

definition request_try ::
    "dom_error option \<Rightarrow> fetch_fn \<Rightarrow> string \<Rightarrow> nat option \<Rightarrow> request_init
       \<Rightarrow> (string \<rightharpoonup> string) \<Rightarrow> browser \<Rightarrow> (js_exn + api_response) \<times> browser" where
  "request_try access fetch url tmo init hdrs b =
     (case fetchWithTimeout fetch url tmo init hdrs of
        Inl e \<Rightarrow> (Inl e, b)
      | Inr response \<Rightarrow>
          (case parseResponse response of
             Inl e \<Rightarrow> (Inl (OtherErr e), b)
           | Inr data \<Rightarrow> handle_response access response data b))"

text \<open>
  What the \<open>catch\<close> block throws for a caught value:
  \<^verbatim>\<open>if (error instanceof ApiError) throw error;
  if (error.message === "Failed to fetch") throw new ApiError(NETWORK_ERROR, 0, error);
  throw new ApiError(error.message || UNKNOWN, 0, error);\<close>
  Reading \<open>message\<close> of \<open>undefined\<close> would itself throw a \<open>TypeError\<close>.
\<close>

definition request_catch :: "js_exn \<Rightarrow> js_exn" where
  "request_catch error =
     (case error of
        ApiErr a \<Rightarrow> ApiErr a
      | OtherErr e \<Rightarrow>
          if err_text e = ''Failed to fetch''
          then ApiErr (ApiError MSG_NETWORK_ERROR 0 (Caught e))
          else ApiErr (ApiError (if err_text e = [] then MSG_UNKNOWN else err_text e) 0
                         (Caught e))
      | Undefined \<Rightarrow>
          OtherErr (JsError ''TypeError''
            ''Cannot read properties of undefined (reading 'message')''))"

text \<open>
  \<open>request\<close>: the defaults of the options, the URL, the headers (built outside the
  \<open>try\<close>, so what \<open>buildHeaders\<close> throws is not caught), then the \<open>try\<close> block
  with its \<open>catch\<close>. The result is the settled promise and the browser state after.
  \<open>env\<close> is the environment variable of the base URL, \<open>access\<close> the storage access.
\<close>

definition request ::
    "string option \<Rightarrow> dom_error option \<Rightarrow> fetch_fn \<Rightarrow> string \<Rightarrow> request_options \<Rightarrow> browser
       \<Rightarrow> (js_exn + api_response) \<times> browser" where
  "request env access fetch endpoint options b =
     (let requiresAuth = (case opt_requiresAuth options of None \<Rightarrow> True | Some r \<Rightarrow> r);
          baseURL = (case opt_baseURL options of None \<Rightarrow> API_URL env | Some u \<Rightarrow> u);
          headers = (case opt_headers options of None \<Rightarrow> [] | Some h \<Rightarrow> h);
          url = request_url baseURL endpoint
      in case buildHeaders requiresAuth (Some headers) access b of
           Inl e \<Rightarrow> (Inl e, b)
         | Inr requestHeaders \<Rightarrow>
             (case request_try access fetch url (opt_timeout options) (opt_init options)
                     requestHeaders b of
                (Inr res, b') \<Rightarrow> (Inr res, b')
              | (Inl error, b') \<Rightarrow> (Inl (request_catch error), b')))"

definition no_options :: request_options where
  "no_options =
     \<lparr>opt_timeout = None, opt_requiresAuth = None, opt_baseURL = None, opt_headers = None,
      opt_init = \<lparr>init_method = None, init_body = None\<rparr>\<rparr>"



subsection \<open>retryRequest\<close>

text \<open>
  \<open>requestFn\<close> is called once per round of the loop and may settle differently each
  time: \<open>requestFn i\<close> is what call number \<open>i\<close> (from 0) settles to. The log records,
  in order, every call and every delay handed to \<open>setTimeout\<close>. \<open>maxRetries\<close> and
  \<open>baseDelay\<close> are integers.
  \<^verbatim>\<open>let lastError;
  for (let i = 0; i < maxRetries; i++) {
    try { return await requestFn(); }
    catch (error) {
      lastError = error;
      if (error instanceof ApiError && error.status >= 400 && error.status < 500) throw error;
      if (i < maxRetries - 1) {
        const delay = baseDelay * Math.pow(2, i);
        await new Promise((resolve) => setTimeout(resolve, delay)); } } }
  throw lastError;\<close>
\<close>

datatype event = Attempt nat | Sleep int

definition is_client_error :: "js_exn \<Rightarrow> bool" where
  "is_client_error error =
     (case error of ApiErr a \<Rightarrow> 400 \<le> err_status a \<and> err_status a < 500 | _ \<Rightarrow> False)"

function retry_loop ::
    "(nat \<Rightarrow> js_exn + 'a) \<Rightarrow> int \<Rightarrow> int \<Rightarrow> nat \<Rightarrow> js_exn \<Rightarrow> event list
       \<Rightarrow> (js_exn + 'a) \<times> event list" where
  "retry_loop requestFn maxRetries baseDelay i lastError log =
     (if int i < maxRetries
      then (case requestFn i of
              Inr v \<Rightarrow> (Inr v, log @ [Attempt i])
            | Inl error \<Rightarrow>
                if is_client_error error then (Inl error, log @ [Attempt i])
                else if int i < maxRetries - 1
                then retry_loop requestFn maxRetries baseDelay (Suc i) error
                       (log @ [Attempt i, Sleep (baseDelay * 2 ^ i)])
                else retry_loop requestFn maxRetries baseDelay (Suc i) error
                       (log @ [Attempt i]))
      else (Inl lastError, log))"
  by pat_completeness auto
termination
  by (relation "measure (\<lambda>(requestFn, maxRetries, baseDelay, i, lastError, log).
                  nat (maxRetries - int i))") auto

definition retryRequest ::
    "(nat \<Rightarrow> js_exn + 'a) \<Rightarrow> int \<Rightarrow> int \<Rightarrow> (js_exn + 'a) \<times> event list" where
  "retryRequest requestFn maxRetries baseDelay =
     retry_loop requestFn maxRetries baseDelay 0 Undefined []"

definition retryRequest_default :: "(nat \<Rightarrow> js_exn + 'a) \<Rightarrow> (js_exn + 'a) \<times> event list" where
  "retryRequest_default requestFn = retryRequest requestFn 3 1000"

definition attempts :: "event list \<Rightarrow> nat" where
  "attempts log = length (filter (\<lambda>e. case e of Attempt _ \<Rightarrow> True | Sleep _ \<Rightarrow> False) log)"

section \<open>Properties of the utilities\<close>

lemma js_slice_from_0:
  assumes "0 \<le> n" "n \<le> int (length xs)"
  shows "js_slice xs 0 n = take (nat n) xs"
  using assms by (simp add: js_slice_def Let_def min_def)

text \<open>
  C9. A text no longer than \<open>maxLength\<close> comes back unchanged. A longer text, with a
  suffix no longer than \<open>maxLength\<close>, becomes a string of exactly \<open>maxLength\<close>
  characters: a prefix of the text followed by the suffix.
\<close>

theorem truncate_spec:
  "(int (length text) \<le> maxLength \<longrightarrow> truncate_text text maxLength suf = text) \<and>
   (maxLength < int (length text) \<and> int (length suf) \<le> maxLength \<longrightarrow>
      int (length (truncate_text text maxLength suf)) = maxLength \<and>
      suffix suf (truncate_text text maxLength suf) \<and>
      (\<exists>p. prefix p text \<and> truncate_text text maxLength suf = p @ suf))"
proof (intro conjI impI)
  assume "int (length text) \<le> maxLength"
  then show "truncate_text text maxLength suf = text"
    by (simp add: truncate_text_def)
next
  assume h: "maxLength < int (length text) \<and> int (length suf) \<le> maxLength"
  let ?n = "maxLength - int (length suf)"
  from h have n: "0 \<le> ?n" "?n \<le> int (length text)" by auto
  from h have ne: "text \<noteq> []" by auto
  have eq: "truncate_text text maxLength suf = take (nat ?n) text @ suf"
    using h ne by (simp add: truncate_text_def js_slice_from_0 [OF n])
  have "length (take (nat ?n) text) = nat ?n"
    using n by simp
  then show "int (length (truncate_text text maxLength suf)) = maxLength"
    using n by (simp add: eq)
  show "suffix suf (truncate_text text maxLength suf)"
    unfolding eq by (rule suffixI) simp
  show "\<exists>p. prefix p text \<and> truncate_text text maxLength suf = p @ suf"
    using eq take_is_prefix by blast
qed

theorem truncate_spec_witness:
  "truncate_text ''hello'' 5 ''...'' = ''hello'' \<and>
   int (length (truncate_text ''hello world'' 8 ''...'')) = 8 \<and>
   suffix ''...'' (truncate_text ''hello world'' 8 ''...'') \<and>
   (\<exists>p. prefix p ''hello world'' \<and> truncate_text ''hello world'' 8 ''...'' = p @ ''...'')"
  using truncate_spec [of "''hello''" 5 "''...''"]
        truncate_spec [of "''hello world''" 8 "''...''"]
  by simp

lemma js_slice_step:
  assumes "0 < sz" "i \<le> length a"
  shows "js_slice a (int i) (int i + sz) = take (nat sz) (drop i a)"
  using assms by (auto simp: js_slice_def Let_def min_def nat_add_distrib nat_diff_distrib)

lemma chunk_loop_run:
  assumes "0 < sz"
  shows "\<exists>rest. chunk_loop a sz (int i) chunks = Some (chunks @ rest) \<and>
           concat rest = drop i a \<and>
           (\<forall>k. Suc k < length rest \<longrightarrow> length (rest ! k) = nat sz) \<and>
           (rest = [] \<longleftrightarrow> length a \<le> i) \<and>
           (rest \<noteq> [] \<longrightarrow> 0 < length (last rest) \<and> length (last rest) \<le> nat sz)"
proof (induction "length a - i" arbitrary: i chunks rule: less_induct)
  case less
  show ?case
  proof (cases "i < length a")
    case False
    then have "chunk_loop a sz (int i) chunks = Some chunks"
      by (subst chunk_loop.simps) simp
    with False show ?thesis by simp
  next
    case True
    define c where "c = take (nat sz) (drop i a)"
    define j where "j = i + nat sz"
    have jint: "int j = int i + sz" using assms by (simp add: j_def)
    have step: "chunk_loop a sz (int i) chunks = chunk_loop a sz (int j) (chunks @ [c])"
      using True assms by (subst chunk_loop.simps) (simp add: js_slice_step c_def jint)
    have "length a - j < length a - i" using True assms by (simp add: j_def)
    from less [OF this, of "chunks @ [c]"] obtain rest where
      r: "chunk_loop a sz (int j) (chunks @ [c]) = Some ((chunks @ [c]) @ rest)"
         "concat rest = drop j a"
         "\<forall>k. Suc k < length rest \<longrightarrow> length (rest ! k) = nat sz"
         "rest = [] \<longleftrightarrow> length a \<le> j"
         "rest \<noteq> [] \<longrightarrow> 0 < length (last rest) \<and> length (last rest) \<le> nat sz"
      by blast
    have c_len: "0 < length c" "length c \<le> nat sz"
      using True assms by (simp_all add: c_def)
    have c_full: "length c = nat sz" if "rest \<noteq> []"
      using that r(4) by (simp add: c_def j_def)
    have 1: "chunk_loop a sz (int i) chunks = Some (chunks @ (c # rest))"
      using step r(1) by simp
    have "drop j a = drop (nat sz) (drop i a)"
      by (simp add: j_def add.commute)
    with r(2) have "concat (c # rest) = take (nat sz) (drop i a) @ drop (nat sz) (drop i a)"
      by (simp only: concat.simps c_def)
    then have 2: "concat (c # rest) = drop i a"
      by (simp only: append_take_drop_id)
    have 3: "\<forall>k. Suc k < length (c # rest) \<longrightarrow> length ((c # rest) ! k) = nat sz"
    proof (intro allI impI)
      fix k assume k: "Suc k < length (c # rest)"
      show "length ((c # rest) ! k) = nat sz"
      proof (cases k)
        case 0
        with k have "rest \<noteq> []" by auto
        with 0 show ?thesis by (simp add: c_full)
      next
        case (Suc k')
        with k r(3) show ?thesis by simp
      qed
    qed
    have 4: "0 < length (last (c # rest)) \<and> length (last (c # rest)) \<le> nat sz"
      using c_len r(5) by (cases "rest = []") simp_all
    from 1 2 3 4 True show ?thesis
      by (intro exI [of _ "c # rest"]) simp
  qed
qed

text \<open>
  C8. For a positive integer size, \<open>chunk\<close> returns, its pieces concatenated in order
  give back the array, every piece but the last has exactly \<open>size\<close> elements, and for
  a non-empty array the last piece has between 1 and \<open>size\<close> elements.
\<close>

theorem chunk_spec:
  assumes "0 < sz"
  shows "\<exists>cs. chunk a sz = Some cs \<and> concat cs = a \<and>
           (\<forall>k. Suc k < length cs \<longrightarrow> int (length (cs ! k)) = sz) \<and>
           (a \<noteq> [] \<longrightarrow> cs \<noteq> [] \<and> 1 \<le> length (last cs) \<and> int (length (last cs)) \<le> sz)"
proof -
  from chunk_loop_run [OF assms, of a 0 "[]"] obtain rest where
    r: "chunk_loop a sz 0 [] = Some rest" "concat rest = a"
       "\<forall>k. Suc k < length rest \<longrightarrow> length (rest ! k) = nat sz"
       "rest = [] \<longleftrightarrow> a = []"
       "rest \<noteq> [] \<longrightarrow> 0 < length (last rest) \<and> length (last rest) \<le> nat sz"
    by auto
  show ?thesis
  proof (intro exI [of _ rest] conjI allI impI)
    show "chunk a sz = Some rest" by (simp add: chunk_def r(1))
    show "concat rest = a" by (rule r(2))
  next
    fix k assume "Suc k < length rest"
    with r(3) assms show "int (length (rest ! k)) = sz" by simp
  next
    assume "a \<noteq> []"
    with r(4) r(5) assms show "rest \<noteq> []" "1 \<le> length (last rest)" "int (length (last rest)) \<le> sz"
      by (auto simp: Suc_le_eq)
  qed
qed

theorem chunk_spec_witness:
  "(0::int) < 2 \<and>
   (\<exists>cs. chunk [1::nat, 2, 3, 4, 5] 2 = Some cs \<and> concat cs = [1, 2, 3, 4, 5] \<and>
      (\<forall>k. Suc k < length cs \<longrightarrow> int (length (cs ! k)) = 2) \<and>
      cs \<noteq> [] \<and> 1 \<le> length (last cs) \<and> int (length (last cs)) \<le> 2) \<and>
   chunk [1::nat, 2, 3, 4, 5] 2 = Some [[1, 2], [3, 4], [5]]"
proof -
  have h: "(0::int) < 2" by simp
  have v: "chunk [1::nat, 2, 3, 4, 5] 2 = Some [[1, 2], [3, 4], [5]]"
    by code_simp
  from chunk_spec [OF h, of "[1::nat, 2, 3, 4, 5]"] h v show ?thesis
    by blast
qed

lemma fold_delete_prop:
  assumes "r < length h"
  shows "fold (delete_prop r) keys h = h[r := (h ! r) |` (- set keys)]"
  using assms
proof (induction keys arbitrary: h)
  case Nil
  then show ?case by (simp add: list_update_same_conv)
next
  case (Cons k ks)
  have eq: "((h ! r)(k := None)) |` (- set ks) = (h ! r) |` (- set (k # ks))"
    by (auto simp: restrict_map_def fun_eq_iff)
  have "fold (delete_prop r) (k # ks) h = fold (delete_prop r) ks (h[r := (h ! r)(k := None)])"
    by (simp add: delete_prop_def)
  also have "\<dots> = (h[r := (h ! r)(k := None)])[r := ((h ! r)(k := None)) |` (- set ks)]"
    using Cons.prems by (subst Cons.IH) simp_all
  also have "\<dots> = h[r := (h ! r) |` (- set (k # ks))]"
    by (simp only: eq list_update_overwrite)
  finally show ?case .
qed

text \<open>
  C10. In the object \<open>omit\<close> returns no key of \<open>keys\<close> is present and every other
  key has the value it has in \<open>obj\<close>; the result is a new object, and \<open>obj\<close> and
  every other object of the heap are as they were.
\<close>

theorem omit_spec:
  assumes "obj < length h"
  shows "case omit h obj keys of (result, h') \<Rightarrow>
           (\<forall>k \<in> set keys. (h' ! result) k = None) \<and>
           (\<forall>k. k \<notin> set keys \<longrightarrow> (h' ! result) k = (h ! obj) k) \<and>
           h' ! obj = h ! obj \<and> take (length h) h' = h \<and> result = length h"
  using assms
  by (simp add: omit_def alloc_def fold_delete_prop nth_append)

theorem omit_spec_witness:
  "case omit [[''a'' \<mapsto> (1::nat), ''b'' \<mapsto> 2]] 0 [''a''] of (result, h') \<Rightarrow>
     (h' ! result) ''a'' = None \<and> (h' ! result) ''b'' = Some 2 \<and>
     (h' ! 0) ''a'' = Some 1 \<and> result = 1"
  using omit_spec [of 0 "[[''a'' \<mapsto> (1::nat), ''b'' \<mapsto> 2]]" "[''a'']"]
  by (auto split: prod.splits)

text \<open>
  C6, as stated: \<open>isAuthenticated\<close> is true exactly when the token key is set. It fails
  for a token key set to the empty string.
\<close>

theorem isAuthenticated_counterexample:
  "getItem \<lparr>storage = [STORAGE_TOKEN \<mapsto> ''''], href = ''/''\<rparr> STORAGE_TOKEN = Some '''' \<and>
   \<not> isAuthenticated \<lparr>storage = [STORAGE_TOKEN \<mapsto> ''''], href = ''/''\<rparr>"
  by (simp add: isAuthenticated_def getItem_def truthy_item_def)

text \<open>
  C6, amended: \<open>isAuthenticated\<close> is true exactly when the token key is set to a
  non-empty string; nothing else about the value is looked at.
\<close>

theorem isAuthenticated_spec:
  "isAuthenticated b \<longleftrightarrow> (\<exists>t. getItem b STORAGE_TOKEN = Some t \<and> t \<noteq> '''')"
  by (simp add: isAuthenticated_def truthy_item_def split: option.splits)

section \<open>Properties of the mock authentication\<close>

text \<open>
  C7. \<open>loginApi\<close> asks for a delay of 500 ms whatever its arguments, and resolves to
  the canned success exactly for the email \<open>user@company.com\<close> with the password
  \<open>password\<close>, to the canned failure for every other input.
\<close>

theorem loginApi_spec:
  "fst (loginApi email password) = 500 \<and>
   (email = ''user@company.com'' \<and> password = ''password'' \<longrightarrow>
      snd (loginApi email password) =
        \<lparr>res_ok = True, res_token = Some ''demo-token-123'',
         res_name = Some ''Demo User'', res_error = None\<rparr>) \<and>
   (\<not> (email = ''user@company.com'' \<and> password = ''password'') \<longrightarrow>
      snd (loginApi email password) =
        \<lparr>res_ok = False, res_token = None, res_name = None,
         res_error = Some ''Invalid email or password''\<rparr>) \<and>
   (res_ok (snd (loginApi email password)) \<longleftrightarrow>
      email = ''user@company.com'' \<and> password = ''password'')"
  by (simp add: loginApi_def)

theorem loginApi_spec_witness:
  "snd (loginApi ''user@company.com'' ''password'') =
     \<lparr>res_ok = True, res_token = Some ''demo-token-123'',
      res_name = Some ''Demo User'', res_error = None\<rparr> \<and>
   snd (loginApi ''user@company.com'' ''Password'') =
     \<lparr>res_ok = False, res_token = None, res_name = None,
      res_error = Some ''Invalid email or password''\<rparr> \<and>
   fst (loginApi ''user@company.com'' ''Password'') = 500"
  using loginApi_spec [of "''user@company.com''" "''password''"]
        loginApi_spec [of "''user@company.com''" "''Password''"]
  by simp

lemma stringify_user_example:
  "stringify_user (Some ''Ann'') ''ann@company.com'' =
     [CHR ''{'', CHR 0x22] @ ''name'' @ [CHR 0x22, CHR '':'', CHR 0x22] @ ''Ann'' @
     [CHR 0x22, CHR '','', CHR 0x22] @ ''email'' @ [CHR 0x22, CHR '':'', CHR 0x22] @
     ''ann@company.com'' @ [CHR 0x22, CHR ''}'']"
  by code_simp

lemma json_escape_plain:
  "c \<noteq> CHR 0x22 \<Longrightarrow> c \<noteq> CHR 0x5C \<Longrightarrow> (32::nat) \<le> of_char c \<Longrightarrow> json_escape c = [c]"
  by (auto simp: json_escape_def)

lemma json_quote_plain:
  assumes "\<forall>c \<in> set s. c \<noteq> CHR 0x22 \<and> c \<noteq> CHR 0x5C \<and> (32::nat) \<le> of_char c"
  shows "json_quote s = [CHR 0x22] @ s @ [CHR 0x22]"
proof -
  have "concat (map json_escape s) = s"
    using assms by (induction s) (simp_all add: json_escape_plain)
  then show ?thesis by (simp add: json_quote_def)
qed

lemma json_quote_name: "json_quote ''name'' = [CHR 0x22] @ ''name'' @ [CHR 0x22]"
  by (rule json_quote_plain) simp

lemma json_quote_email: "json_quote ''email'' = [CHR 0x22] @ ''email'' @ [CHR 0x22]"
  by (rule json_quote_plain) simp

lemma json_quote_demo_user: "json_quote ''Demo User'' = [CHR 0x22] @ ''Demo User'' @ [CHR 0x22]"
  by (rule json_quote_plain) simp

lemma json_quote_demo_email:
  "json_quote ''user@company.com'' = [CHR 0x22] @ ''user@company.com'' @ [CHR 0x22]"
  by (rule json_quote_plain) simp

text \<open>
  C5. When the mock login or the mock registration succeeds, the submit handler stores
  the token under \<open>company_token\<close> and, under \<open>company_user\<close>, the JSON text of the
  user record: an object with the two properties \<open>name\<close> and \<open>email\<close>, their values
  as JSON strings. The logout handler of the dashboard deletes both keys.
\<close>

theorem credentials_lifecycle:
  "(res_ok (snd (loginApi (l_email lf) (l_password lf))) \<longrightarrow>
      storage (snd (Login_handleSubmit lf b)) ''company_token'' = Some ''demo-token-123'' \<and>
      storage (snd (Login_handleSubmit lf b)) ''company_user'' =
        Some (''{'' @ [CHR 0x22] @ ''name'' @ [CHR 0x22] @ '':'' @
              [CHR 0x22] @ ''Demo User'' @ [CHR 0x22] @ '','' @
              [CHR 0x22] @ ''email'' @ [CHR 0x22] @ '':'' @
              [CHR 0x22] @ ''user@company.com'' @ [CHR 0x22] @ ''}'')) \<and>
   (res_ok (snd (registerApi (r_name rf) (r_email rf) (r_password rf))) \<longrightarrow>
      storage (snd (Register_handleSubmit rf b)) ''company_token'' = Some ''demo-token-456'' \<and>
      storage (snd (Register_handleSubmit rf b)) ''company_user'' =
        Some (''{'' @ [CHR 0x22] @ ''name'' @ [CHR 0x22] @ '':'' @ json_quote (r_name rf) @ '','' @
              [CHR 0x22] @ ''email'' @ [CHR 0x22] @ '':'' @ json_quote (r_email rf) @ ''}'') \<and>
      ((\<forall>c \<in> set (r_name rf @ r_email rf).
           c \<noteq> CHR 0x22 \<and> c \<noteq> CHR 0x5C \<and> (32::nat) \<le> of_char c) \<longrightarrow>
       storage (snd (Register_handleSubmit rf b)) ''company_user'' =
         Some (''{'' @ [CHR 0x22] @ ''name'' @ [CHR 0x22] @ '':'' @
               [CHR 0x22] @ r_name rf @ [CHR 0x22] @ '','' @
               [CHR 0x22] @ ''email'' @ [CHR 0x22] @ '':'' @
               [CHR 0x22] @ r_email rf @ [CHR 0x22] @ ''}''))) \<and>
   storage (handleLogout b) ''company_token'' = None \<and>
   storage (handleLogout b) ''company_user'' = None"
proof (intro conjI impI)
  assume ok: "res_ok (snd (loginApi (l_email lf) (l_password lf)))"
  then have e: "l_email lf = ''user@company.com''" "l_password lf = ''password''"
    by (auto simp: loginApi_def split: if_splits)
  show "storage (snd (Login_handleSubmit lf b)) ''company_token'' = Some ''demo-token-123''"
    using e by (simp add: Login_handleSubmit_def loginApi_def setItem_def navigate_def Let_def)
  have "storage (snd (Login_handleSubmit lf b)) ''company_user'' =
          Some (stringify_user (Some ''Demo User'') ''user@company.com'')"
    using e by (simp add: Login_handleSubmit_def loginApi_def setItem_def navigate_def Let_def)
  then show "storage (snd (Login_handleSubmit lf b)) ''company_user'' =
        Some (''{'' @ [CHR 0x22] @ ''name'' @ [CHR 0x22] @ '':'' @
              [CHR 0x22] @ ''Demo User'' @ [CHR 0x22] @ '','' @
              [CHR 0x22] @ ''email'' @ [CHR 0x22] @ '':'' @
              [CHR 0x22] @ ''user@company.com'' @ [CHR 0x22] @ ''}'')"
    by (simp add: stringify_user_def json_quote_name json_quote_email
          json_quote_demo_user json_quote_demo_email)
next
  assume ok: "res_ok (snd (registerApi (r_name rf) (r_email rf) (r_password rf)))"
  then have c: "js_includes (r_email rf) ''@'' \<and> 4 \<le> length (r_password rf)"
    by (auto simp: registerApi_def split: if_splits)
  show "storage (snd (Register_handleSubmit rf b)) ''company_token'' = Some ''demo-token-456''"
    using c by (simp add: Register_handleSubmit_def registerApi_def setItem_def navigate_def Let_def)
  have u: "storage (snd (Register_handleSubmit rf b)) ''company_user'' =
          Some (stringify_user (Some (r_name rf)) (r_email rf))"
    using c by (simp add: Register_handleSubmit_def registerApi_def setItem_def navigate_def Let_def)
  then show g: "storage (snd (Register_handleSubmit rf b)) ''company_user'' =
        Some (''{'' @ [CHR 0x22] @ ''name'' @ [CHR 0x22] @ '':'' @ json_quote (r_name rf) @ '','' @
              [CHR 0x22] @ ''email'' @ [CHR 0x22] @ '':'' @ json_quote (r_email rf) @ ''}'')"
    by (simp add: stringify_user_def json_quote_name json_quote_email)
  assume plain: "\<forall>c \<in> set (r_name rf @ r_email rf).
           c \<noteq> CHR 0x22 \<and> c \<noteq> CHR 0x5C \<and> (32::nat) \<le> of_char c"
  have "json_quote (r_name rf) = [CHR 0x22] @ r_name rf @ [CHR 0x22]"
    by (rule json_quote_plain) (use plain in simp)
  moreover have "json_quote (r_email rf) = [CHR 0x22] @ r_email rf @ [CHR 0x22]"
    by (rule json_quote_plain) (use plain in simp)
  ultimately show "storage (snd (Register_handleSubmit rf b)) ''company_user'' =
         Some (''{'' @ [CHR 0x22] @ ''name'' @ [CHR 0x22] @ '':'' @
               [CHR 0x22] @ r_name rf @ [CHR 0x22] @ '','' @
               [CHR 0x22] @ ''email'' @ [CHR 0x22] @ '':'' @
               [CHR 0x22] @ r_email rf @ [CHR 0x22] @ ''}'')"
    using g by simp
next
  show "storage (handleLogout b) ''company_token'' = None"
    by (simp add: handleLogout_def removeItem_def navigate_def)
  show "storage (handleLogout b) ''company_user'' = None"
    by (simp add: handleLogout_def removeItem_def navigate_def)
qed

theorem credentials_lifecycle_witness:
  "storage (snd (Login_handleSubmit
      \<lparr>l_email = ''user@company.com'', l_password = ''password'', l_loading = False, l_error = []\<rparr>
      \<lparr>storage = Map.empty, href = ''/login''\<rparr>)) ''company_token'' = Some ''demo-token-123'' \<and>
   storage (snd (Login_handleSubmit
      \<lparr>l_email = ''user@company.com'', l_password = ''password'', l_loading = False, l_error = []\<rparr>
      \<lparr>storage = Map.empty, href = ''/login''\<rparr>)) ''company_user'' =
     Some (''{'' @ [CHR 0x22] @ ''name'' @ [CHR 0x22] @ '':'' @
           [CHR 0x22] @ ''Demo User'' @ [CHR 0x22] @ '','' @
           [CHR 0x22] @ ''email'' @ [CHR 0x22] @ '':'' @
           [CHR 0x22] @ ''user@company.com'' @ [CHR 0x22] @ ''}'') \<and>
   storage (snd (Register_handleSubmit
      \<lparr>r_name = ''Ann'', r_email = ''ann@company.com'', r_password = ''secret'',
        r_loading = False, r_error = []\<rparr>
      \<lparr>storage = Map.empty, href = ''/register''\<rparr>)) ''company_token'' = Some ''demo-token-456'' \<and>
   storage (snd (Register_handleSubmit
      \<lparr>r_name = ''Ann'', r_email = ''ann@company.com'', r_password = ''secret'',
        r_loading = False, r_error = []\<rparr>
      \<lparr>storage = Map.empty, href = ''/register''\<rparr>)) ''company_user'' =
     Some (''{'' @ [CHR 0x22] @ ''name'' @ [CHR 0x22] @ '':'' @
           [CHR 0x22] @ ''Ann'' @ [CHR 0x22] @ '','' @
           [CHR 0x22] @ ''email'' @ [CHR 0x22] @ '':'' @
           [CHR 0x22] @ ''ann@company.com'' @ [CHR 0x22] @ ''}'') \<and>
   storage (snd (Register_handleSubmit
      \<lparr>r_name = [CHR ''J'', CHR 0x22, CHR 0x5C], r_email = ''j@x.io'', r_password = ''1234'',
        r_loading = False, r_error = []\<rparr>
      \<lparr>storage = Map.empty, href = ''/register''\<rparr>)) ''company_user'' =
     Some (''{'' @ [CHR 0x22] @ ''name'' @ [CHR 0x22] @ '':'' @
           [CHR 0x22, CHR ''J'', CHR 0x5C, CHR 0x22, CHR 0x5C, CHR 0x5C, CHR 0x22] @ '','' @
           [CHR 0x22] @ ''email'' @ [CHR 0x22] @ '':'' @
           [CHR 0x22] @ ''j@x.io'' @ [CHR 0x22] @ ''}'') \<and>
   storage (handleLogout
      \<lparr>storage = [''company_token'' \<mapsto> ''demo-token-123'', ''company_user'' \<mapsto> ''{}'',
                   ''app_theme'' \<mapsto> ''dark''],
        href = ''/dashboard''\<rparr>) ''company_token'' = None \<and>
   storage (handleLogout
      \<lparr>storage = [''company_token'' \<mapsto> ''demo-token-123'', ''company_user'' \<mapsto> ''{}'',
                   ''app_theme'' \<mapsto> ''dark''],
        href = ''/dashboard''\<rparr>) ''company_user'' = None"
proof -
  let ?lf = "\<lparr>l_email = ''user@company.com'', l_password = ''password'',
              l_loading = False, l_error = []\<rparr>"
  let ?rf = "\<lparr>r_name = ''Ann'', r_email = ''ann@company.com'', r_password = ''secret'',
              r_loading = False, r_error = []\<rparr>"
  let ?b = "\<lparr>storage = [''company_token'' \<mapsto> ''demo-token-123'', ''company_user'' \<mapsto> ''{}'',
                          ''app_theme'' \<mapsto> ''dark''],
             href = ''/dashboard''\<rparr>"
  have l: "res_ok (snd (loginApi (l_email ?lf) (l_password ?lf)))"
    by (simp add: loginApi_def)
  have r: "res_ok (snd (registerApi (r_name ?rf) (r_email ?rf) (r_password ?rf)))"
    by (simp add: registerApi_def)
  have p: "\<forall>c \<in> set (r_name ?rf @ r_email ?rf).
             c \<noteq> CHR 0x22 \<and> c \<noteq> CHR 0x5C \<and> (32::nat) \<le> of_char c"
    by simp
  note login = credentials_lifecycle [of ?lf "\<lparr>storage = Map.empty, href = ''/login''\<rparr>" ?rf]
  note register = credentials_lifecycle [of ?lf "\<lparr>storage = Map.empty, href = ''/register''\<rparr>" ?rf]
  note logout = credentials_lifecycle [of ?lf ?b ?rf]
  from login l have 1: "storage (snd (Login_handleSubmit ?lf \<lparr>storage = Map.empty, href = ''/login''\<rparr>))
      ''company_token'' = Some ''demo-token-123''"
    and 2: "storage (snd (Login_handleSubmit ?lf \<lparr>storage = Map.empty, href = ''/login''\<rparr>))
      ''company_user'' =
     Some (''{'' @ [CHR 0x22] @ ''name'' @ [CHR 0x22] @ '':'' @
           [CHR 0x22] @ ''Demo User'' @ [CHR 0x22] @ '','' @
           [CHR 0x22] @ ''email'' @ [CHR 0x22] @ '':'' @
           [CHR 0x22] @ ''user@company.com'' @ [CHR 0x22] @ ''}'')"
    by blast+
  from register r p have 3: "storage (snd (Register_handleSubmit ?rf
        \<lparr>storage = Map.empty, href = ''/register''\<rparr>)) ''company_token'' = Some ''demo-token-456''"
    and 4: "storage (snd (Register_handleSubmit ?rf
        \<lparr>storage = Map.empty, href = ''/register''\<rparr>)) ''company_user'' =
     Some (''{'' @ [CHR 0x22] @ ''name'' @ [CHR 0x22] @ '':'' @
           [CHR 0x22] @ r_name ?rf @ [CHR 0x22] @ '','' @
           [CHR 0x22] @ ''email'' @ [CHR 0x22] @ '':'' @
           [CHR 0x22] @ r_email ?rf @ [CHR 0x22] @ ''}'')"
    by blast+
  let ?rq = "\<lparr>r_name = [CHR ''J'', CHR 0x22, CHR 0x5C], r_email = ''j@x.io'',
              r_password = ''1234'', r_loading = False, r_error = []\<rparr>"
  have rq: "res_ok (snd (registerApi (r_name ?rq) (r_email ?rq) (r_password ?rq)))"
    by (simp add: registerApi_def)
  have q1: "json_quote [CHR ''J'', CHR 0x22, CHR 0x5C] =
      [CHR 0x22, CHR ''J'', CHR 0x5C, CHR 0x22, CHR 0x5C, CHR 0x5C, CHR 0x22]"
    by (simp add: json_quote_def json_escape_def)
  have q2: "json_quote ''j@x.io'' = [CHR 0x22] @ ''j@x.io'' @ [CHR 0x22]"
    by (simp add: json_quote_plain)
  note escaped = credentials_lifecycle [of ?lf "\<lparr>storage = Map.empty, href = ''/register''\<rparr>" ?rq]
  from escaped rq have "storage (snd (Register_handleSubmit ?rq
        \<lparr>storage = Map.empty, href = ''/register''\<rparr>)) ''company_user'' =
     Some (''{'' @ [CHR 0x22] @ ''name'' @ [CHR 0x22] @ '':'' @ json_quote (r_name ?rq) @ '','' @
           [CHR 0x22] @ ''email'' @ [CHR 0x22] @ '':'' @ json_quote (r_email ?rq) @ ''}'')"
    by blast
  then have 7: "storage (snd (Register_handleSubmit ?rq
        \<lparr>storage = Map.empty, href = ''/register''\<rparr>)) ''company_user'' =
     Some (''{'' @ [CHR 0x22] @ ''name'' @ [CHR 0x22] @ '':'' @
           [CHR 0x22, CHR ''J'', CHR 0x5C, CHR 0x22, CHR 0x5C, CHR 0x5C, CHR 0x22] @ '','' @
           [CHR 0x22] @ ''email'' @ [CHR 0x22] @ '':'' @
           [CHR 0x22] @ ''j@x.io'' @ [CHR 0x22] @ ''}'')"
    by (simp add: q1 q2)
  from logout have 5: "storage (handleLogout ?b) ''company_token'' = None"
    and 6: "storage (handleLogout ?b) ''company_user'' = None"
    by blast+
  from 1 2 3 4 5 6 7 show ?thesis by simp
qed

section \<open>Properties of retryRequest\<close>

declare retry_loop.simps [simp del]

lemma retry_loop_done:
  "\<not> int i < m \<Longrightarrow> retry_loop f m b i le log = (Inl le, log)"
  by (subst retry_loop.simps) simp

lemma retry_loop_success:
  "int i < m \<Longrightarrow> f i = Inr v \<Longrightarrow> retry_loop f m b i le log = (Inr v, log @ [Attempt i])"
  by (subst retry_loop.simps) simp

lemma retry_loop_client_error:
  "int i < m \<Longrightarrow> f i = Inl e \<Longrightarrow> is_client_error e \<Longrightarrow>
   retry_loop f m b i le log = (Inl e, log @ [Attempt i])"
  by (subst retry_loop.simps) simp

lemma retry_loop_backoff:
  "int i < m - 1 \<Longrightarrow> f i = Inl e \<Longrightarrow> \<not> is_client_error e \<Longrightarrow>
   retry_loop f m b i le log =
     retry_loop f m b (Suc i) e (log @ [Attempt i, Sleep (b * 2 ^ i)])"
  by (subst retry_loop.simps) simp

lemma retry_loop_last:
  "int i < m \<Longrightarrow> \<not> int i < m - 1 \<Longrightarrow> f i = Inl e \<Longrightarrow> \<not> is_client_error e \<Longrightarrow>
   retry_loop f m b i le log = (Inl e, log @ [Attempt i])"
  by (subst retry_loop.simps) (simp add: retry_loop_done)

lemma retry_loop_cases:
  obtains (finished) "\<not> int i < m"
  | (success) v where "int i < m" "f i = Inr v"
  | (client) e where "int i < m" "f i = Inl e" "is_client_error e"
  | (backoff) e where "int i < m - 1" "f i = Inl e" "\<not> is_client_error e"
  | (final) e where "int i < m" "\<not> int i < m - 1" "f i = Inl e" "\<not> is_client_error e"
proof (cases "int i < m")
  case False
  then show thesis by (rule finished)
next
  case True
  show thesis
  proof (cases "f i")
    case (Inr v)
    with True show thesis by (rule success)
  next
    case (Inl e)
    show thesis
    proof (cases "is_client_error e")
      case True
      with \<open>int i < m\<close> Inl show thesis by (rule client)
    next
      case False
      show thesis
      proof (cases "int i < m - 1")
        case True
        then show thesis using Inl False by (rule backoff)
      next
        case nl: False
        from \<open>int i < m\<close> nl Inl False show thesis by (rule final)
      qed
    qed
  qed
qed

lemma retry_loop_log_extends:
  "\<exists>rest. snd (retry_loop f m b i le log) = log @ rest"
proof (induction "nat (m - int i)" arbitrary: i le log)
  case 0
  then show ?case by (simp add: retry_loop_done)
next
  case (Suc n)
  show ?case
  proof (cases rule: retry_loop_cases [where i=i and m=m and f=f])
    case finished
    then show ?thesis by (simp add: retry_loop_done)
  next
    case (success v)
    then show ?thesis by (simp add: retry_loop_success)
  next
    case (client e)
    then show ?thesis by (simp add: retry_loop_client_error)
  next
    case (backoff e)
    from Suc(2) have "n = nat (m - int (Suc i))" by simp
    from Suc(1) [OF this, of e "log @ [Attempt i, Sleep (b * 2 ^ i)]"] backoff
    show ?thesis by (auto simp: retry_loop_backoff)
  next
    case (final e)
    then show ?thesis by (simp add: retry_loop_last)
  qed
qed

lemma retry_loop_first_attempt:
  assumes "int i < m"
  shows "\<exists>post. snd (retry_loop f m b i le log) = log @ Attempt i # post"
proof (cases rule: retry_loop_cases [where i=i and m=m and f=f])
  case finished
  with assms show ?thesis by simp
next
  case (success v)
  then show ?thesis by (simp add: retry_loop_success)
next
  case (client e)
  then show ?thesis by (simp add: retry_loop_client_error)
next
  case (backoff e)
  from retry_loop_log_extends [of f m b "Suc i" e "log @ [Attempt i, Sleep (b * 2 ^ i)]"]
  show ?thesis using backoff by (auto simp: retry_loop_backoff)
next
  case (final e)
  then show ?thesis by (simp add: retry_loop_last)
qed

lemma retry_loop_reach:
  "Attempt k \<in> set (snd (retry_loop f m b i le log)) \<Longrightarrow> Attempt k \<notin> set log \<Longrightarrow>
   i \<le> k \<and> int k < m \<and> (\<forall>j. i \<le> j \<and> j < k \<longrightarrow> (\<exists>e. f j = Inl e \<and> \<not> is_client_error e))"
proof (induction "nat (m - int i)" arbitrary: i le log)
  case 0
  then show ?case by (simp add: retry_loop_done)
next
  case (Suc n)
  show ?case
  proof (cases rule: retry_loop_cases [where i=i and m=m and f=f])
    case finished
    with Suc.prems show ?thesis by (simp add: retry_loop_done)
  next
    case (success v)
    with Suc.prems show ?thesis by (auto simp: retry_loop_success)
  next
    case (client e)
    with Suc.prems show ?thesis by (auto simp: retry_loop_client_error)
  next
    case (backoff e)
    show ?thesis
    proof (cases "k = i")
      case True
      with backoff show ?thesis by auto
    next
      case False
      from Suc(2) have n: "n = nat (m - int (Suc i))" by simp
      have "Attempt k \<in> set (snd (retry_loop f m b (Suc i) e (log @ [Attempt i, Sleep (b * 2 ^ i)])))"
        using Suc.prems(1) backoff by (simp add: retry_loop_backoff)
      moreover have "Attempt k \<notin> set (log @ [Attempt i, Sleep (b * 2 ^ i)])"
        using Suc.prems(2) False by simp
      ultimately have ih: "Suc i \<le> k \<and> int k < m \<and>
          (\<forall>j. Suc i \<le> j \<and> j < k \<longrightarrow> (\<exists>e. f j = Inl e \<and> \<not> is_client_error e))"
        by (rule Suc(1) [OF n])
      show ?thesis
      proof (intro conjI allI impI)
        show "i \<le> k" using ih by simp
        show "int k < m" using ih by simp
      next
        fix j assume j: "i \<le> j \<and> j < k"
        show "\<exists>e. f j = Inl e \<and> \<not> is_client_error e"
        proof (cases "j = i")
          case True
          with backoff show ?thesis by simp
        next
          case False
          with j have "Suc i \<le> j \<and> j < k" by simp
          with ih show ?thesis by blast
        qed
      qed
    qed
  next
    case (final e)
    with Suc.prems show ?thesis by (auto simp: retry_loop_last)
  qed
qed

lemma retry_loop_skip:
  "i \<le> k \<Longrightarrow> int k < m \<Longrightarrow>
   (\<forall>j. i \<le> j \<and> j < k \<longrightarrow> (\<exists>e. f j = Inl e \<and> \<not> is_client_error e)) \<Longrightarrow>
   \<exists>le'. retry_loop f m b i le log =
     retry_loop f m b k le' (log @ concat (map (\<lambda>j. [Attempt j, Sleep (b * 2 ^ j)]) [i..<k]))"
proof (induction "k - i" arbitrary: i le log)
  case 0
  then have "i = k" by simp
  then show ?case by auto
next
  case (Suc n)
  then have ik: "i < k" by simp
  with Suc.prems obtain e where e: "f i = Inl e" "\<not> is_client_error e" by blast
  have im: "int i < m - 1" using ik Suc.prems(2) by simp
  have n: "n = k - Suc i" using Suc(2) by simp
  have "\<exists>le'. retry_loop f m b (Suc i) e (log @ [Attempt i, Sleep (b * 2 ^ i)]) =
     retry_loop f m b k le' ((log @ [Attempt i, Sleep (b * 2 ^ i)]) @
        concat (map (\<lambda>j. [Attempt j, Sleep (b * 2 ^ j)]) [Suc i..<k]))"
    using ik Suc.prems by (intro Suc(1) [OF n]) auto
  then show ?case
    using ik im e by (simp add: retry_loop_backoff upt_conv_Cons)
qed

lemma attempts_append: "attempts (xs @ ys) = attempts xs + attempts ys"
  by (simp add: attempts_def)

lemma retry_loop_attempts:
  "attempts (snd (retry_loop f m b i le log)) \<le> attempts log + nat (m - int i)"
proof (induction "nat (m - int i)" arbitrary: i le log)
  case 0
  then show ?case by (simp add: retry_loop_done)
next
  case (Suc n)
  show ?case
  proof (cases rule: retry_loop_cases [where i=i and m=m and f=f])
    case finished
    then show ?thesis by (simp add: retry_loop_done)
  next
    case (success v)
    then show ?thesis by (simp add: retry_loop_success attempts_append attempts_def)
  next
    case (client e)
    then show ?thesis by (simp add: retry_loop_client_error attempts_append attempts_def)
  next
    case (backoff e)
    from Suc(2) have n: "n = nat (m - int (Suc i))" by simp
    have "attempts (log @ [Attempt i, Sleep (b * 2 ^ i)]) = Suc (attempts log)"
      by (simp add: attempts_def)
    with Suc(1) [OF n, of e "log @ [Attempt i, Sleep (b * 2 ^ i)]"]
    have "attempts (snd (retry_loop f m b (Suc i) e (log @ [Attempt i, Sleep (b * 2 ^ i)])))
            \<le> Suc (attempts log) + nat (m - int (Suc i))"
      by simp
    also have "\<dots> = attempts log + nat (m - int i)"
      using backoff(1) by simp
    finally show ?thesis
      using backoff by (simp add: retry_loop_backoff)
  next
    case (final e)
    then show ?thesis by (simp add: retry_loop_last attempts_append attempts_def)
  qed
qed

text \<open>
  C2. Take a call \<open>k\<close> that \<open>retryRequest\<close> makes and that fails with an
  \<open>ApiError\<close>. With a status from 400 to 499 that error is rethrown and the call is
  the last event: before it there are only the earlier calls, each followed by its
  delay. With a status from 500 to 599, or 0, and a next round left, the delay
  \<open>baseDelay * 2 ^ k\<close> is requested and then call \<open>k + 1\<close> is made.
\<close>

theorem retryRequest_classification:
  assumes made: "Attempt k \<in> set (snd (retryRequest requestFn maxRetries baseDelay))"
    and fails: "requestFn k = Inl (ApiErr a)"
  shows "(400 \<le> err_status a \<and> err_status a < 500 \<longrightarrow>
            retryRequest requestFn maxRetries baseDelay =
              (Inl (ApiErr a),
               concat (map (\<lambda>j. [Attempt j, Sleep (baseDelay * 2 ^ j)]) [0..<k]) @ [Attempt k])) \<and>
         ((500 \<le> err_status a \<and> err_status a < 600 \<or> err_status a = 0) \<and>
          int (Suc k) < maxRetries \<longrightarrow>
            (\<exists>post. snd (retryRequest requestFn maxRetries baseDelay) =
               concat (map (\<lambda>j. [Attempt j, Sleep (baseDelay * 2 ^ j)]) [0..<k]) @
               [Attempt k, Sleep (baseDelay * 2 ^ k), Attempt (Suc k)] @ post))"
proof -
  let ?L = "concat (map (\<lambda>j. [Attempt j, Sleep (baseDelay * 2 ^ j)]) [0..<k])"
  from made have r: "int k < maxRetries"
      "\<forall>j. 0 \<le> j \<and> j < k \<longrightarrow> (\<exists>e. requestFn j = Inl e \<and> \<not> is_client_error e)"
    using retry_loop_reach [of k requestFn maxRetries baseDelay 0 Undefined "[]"]
    by (simp_all add: retryRequest_def)
  from retry_loop_skip [of 0 k maxRetries requestFn baseDelay Undefined "[]"] r
  obtain le' where run: "retryRequest requestFn maxRetries baseDelay =
      retry_loop requestFn maxRetries baseDelay k le' ?L"
    by (auto simp: retryRequest_def)
  show ?thesis
  proof (intro conjI impI)
    assume "400 \<le> err_status a \<and> err_status a < 500"
    then have "is_client_error (ApiErr a)" by (simp add: is_client_error_def)
    with r(1) fails show "retryRequest requestFn maxRetries baseDelay = (Inl (ApiErr a), ?L @ [Attempt k])"
      by (simp add: run retry_loop_client_error)
  next
    assume h: "(500 \<le> err_status a \<and> err_status a < 600 \<or> err_status a = 0) \<and>
               int (Suc k) < maxRetries"
    then have nc: "\<not> is_client_error (ApiErr a)" by (auto simp: is_client_error_def)
    from h have k1: "int k < maxRetries - 1" by simp
    from h have k2: "int (Suc k) < maxRetries" by simp
    from retry_loop_first_attempt [OF k2, of requestFn baseDelay "ApiErr a"
        "?L @ [Attempt k, Sleep (baseDelay * 2 ^ k)]"]
    show "\<exists>post. snd (retryRequest requestFn maxRetries baseDelay) =
            ?L @ [Attempt k, Sleep (baseDelay * 2 ^ k), Attempt (Suc k)] @ post"
      using k1 fails nc by (simp add: run retry_loop_backoff)
  qed
qed

theorem retryRequest_classification_witness:
  "retryRequest
     (\<lambda>i. if i = 0 then Inl (ApiErr (ApiError ''down'' 503 NoData))
          else if i = 1 then Inl (ApiErr (ApiError ''gone'' 404 NoData))
          else (Inr () :: js_exn + unit)) 3 1000
     = (Inl (ApiErr (ApiError ''gone'' 404 NoData)), [Attempt 0, Sleep 1000, Attempt 1]) \<and>
   (\<exists>post. snd (retryRequest
       (\<lambda>i. if i = 0 then Inl (ApiErr (ApiError ''down'' 503 NoData))
            else if i = 1 then Inl (ApiErr (ApiError ''gone'' 404 NoData))
            else (Inr () :: js_exn + unit)) 3 1000)
     = [Attempt 0, Sleep 1000, Attempt 1] @ post)"
proof -
  let ?f = "\<lambda>i. if i = 0 then Inl (ApiErr (ApiError ''down'' 503 NoData))
                else if i = (1::nat) then Inl (ApiErr (ApiError ''gone'' 404 NoData))
                else (Inr () :: js_exn + unit)"
  have m1: "Attempt 1 \<in> set (snd (retryRequest ?f 3 1000))" by code_simp
  have m0: "Attempt 0 \<in> set (snd (retryRequest ?f 3 1000))" by code_simp
  have f1: "?f 1 = Inl (ApiErr (ApiError ''gone'' 404 NoData))" by simp
  have f0: "?f 0 = Inl (ApiErr (ApiError ''down'' 503 NoData))" by simp
  have s1: "err_status (ApiError ''gone'' 404 NoData) = 404"
    and s0: "err_status (ApiError ''down'' 503 NoData) = 503"
    by (simp_all add: ApiError_def)
  have "[0..<1] = [0::nat]" by (simp add: upt_rec)
  with retryRequest_classification [OF m1 f1] s1
  have a: "retryRequest ?f 3 1000 =
      (Inl (ApiErr (ApiError ''gone'' 404 NoData)), [Attempt 0, Sleep 1000, Attempt 1])"
    by simp
  from retryRequest_classification [OF m0 f0] s0
  have b: "\<exists>post. snd (retryRequest ?f 3 1000) = [Attempt 0, Sleep 1000, Attempt 1] @ post"
    by simp
  from a b show ?thesis by (rule conjI)
qed

lemma retry_loop_last_call:
  "int i < m \<Longrightarrow>
   \<exists>k pre. i \<le> k \<and> int k < m \<and> snd (retry_loop f m b i le log) = pre @ [Attempt k] \<and>
           fst (retry_loop f m b i le log) = f k"
proof (induction "nat (m - int i)" arbitrary: i le log)
  case 0
  then show ?case by simp
next
  case (Suc n)
  show ?case
  proof (cases rule: retry_loop_cases [where i=i and m=m and f=f])
    case finished
    with Suc.prems show ?thesis by simp
  next
    case (success v)
    then show ?thesis by (auto simp: retry_loop_success)
  next
    case (client e)
    then show ?thesis by (auto simp: retry_loop_client_error)
  next
    case (backoff e)
    from Suc(2) have n: "n = nat (m - int (Suc i))" by simp
    from backoff(1) have "int (Suc i) < m" by simp
    from Suc(1) [OF n this, of e "log @ [Attempt i, Sleep (b * 2 ^ i)]"]
    obtain k pre where "Suc i \<le> k" "int k < m"
      "snd (retry_loop f m b (Suc i) e (log @ [Attempt i, Sleep (b * 2 ^ i)])) = pre @ [Attempt k]"
      "fst (retry_loop f m b (Suc i) e (log @ [Attempt i, Sleep (b * 2 ^ i)])) = f k"
      by blast
    then have "i \<le> k \<and> int k < m \<and> snd (retry_loop f m b i le log) = pre @ [Attempt k] \<and>
        fst (retry_loop f m b i le log) = f k"
      using backoff by (simp add: retry_loop_backoff)
    then show ?thesis by blast
  next
    case (final e)
    then show ?thesis by (auto simp: retry_loop_last)
  qed
qed

text \<open>
  C3. With \<open>maxRetries\<close> at least 1, \<open>requestFn\<close> is called at most \<open>maxRetries\<close>
  times, the run ends with a call, and what \<open>retryRequest\<close> settles to is what that
  last call settled to. When every call fails with something other than a 4xx
  \<open>ApiError\<close>, the calls made are exactly the calls 0 to \<open>maxRetries - 1\<close>, each but
  the last followed by its delay, and the error of call \<open>maxRetries - 1\<close> is rethrown.
\<close>

theorem retryRequest_bounded:
  assumes "1 \<le> maxRetries"
  shows "int (attempts (snd (retryRequest requestFn maxRetries baseDelay))) \<le> maxRetries \<and>
         (\<exists>k pre. int k < maxRetries \<and>
            snd (retryRequest requestFn maxRetries baseDelay) = pre @ [Attempt k] \<and>
            fst (retryRequest requestFn maxRetries baseDelay) = requestFn k) \<and>
         ((\<forall>i. int i < maxRetries \<longrightarrow> (\<exists>e. requestFn i = Inl e \<and> \<not> is_client_error e)) \<longrightarrow>
            retryRequest requestFn maxRetries baseDelay =
              (requestFn (nat (maxRetries - 1)),
               concat (map (\<lambda>j. [Attempt j, Sleep (baseDelay * 2 ^ j)]) [0..<nat (maxRetries - 1)])
                 @ [Attempt (nat (maxRetries - 1))]))"
proof (intro conjI impI)
  have "attempts (snd (retryRequest requestFn maxRetries baseDelay)) \<le> nat maxRetries"
    using retry_loop_attempts [of requestFn maxRetries baseDelay 0 Undefined "[]"]
    by (simp add: retryRequest_def attempts_def)
  with assms show "int (attempts (snd (retryRequest requestFn maxRetries baseDelay))) \<le> maxRetries"
    by simp
next
  from assms have "int 0 < maxRetries" by simp
  from retry_loop_last_call [OF this, of requestFn baseDelay Undefined "[]"]
  show "\<exists>k pre. int k < maxRetries \<and>
            snd (retryRequest requestFn maxRetries baseDelay) = pre @ [Attempt k] \<and>
            fst (retryRequest requestFn maxRetries baseDelay) = requestFn k"
    by (auto simp: retryRequest_def)
next
  assume all: "\<forall>i. int i < maxRetries \<longrightarrow> (\<exists>e. requestFn i = Inl e \<and> \<not> is_client_error e)"
  define k where "k = nat (maxRetries - 1)"
  have k: "int k < maxRetries" "\<not> int k < maxRetries - 1"
    using assms by (simp_all add: k_def)
  from all k(1) obtain e where e: "requestFn k = Inl e" "\<not> is_client_error e" by blast
  have "\<forall>j. 0 \<le> j \<and> j < k \<longrightarrow> (\<exists>e. requestFn j = Inl e \<and> \<not> is_client_error e)"
    using all k(1) by auto
  with retry_loop_skip [of 0 k maxRetries requestFn baseDelay Undefined "[]"] k(1)
  obtain le' where "retryRequest requestFn maxRetries baseDelay =
      retry_loop requestFn maxRetries baseDelay k le'
        (concat (map (\<lambda>j. [Attempt j, Sleep (baseDelay * 2 ^ j)]) [0..<k]))"
    by (auto simp: retryRequest_def)
  then show "retryRequest requestFn maxRetries baseDelay =
      (requestFn (nat (maxRetries - 1)),
       concat (map (\<lambda>j. [Attempt j, Sleep (baseDelay * 2 ^ j)]) [0..<nat (maxRetries - 1)])
         @ [Attempt (nat (maxRetries - 1))])"
    using k e by (simp add: retry_loop_last k_def)
qed

theorem retryRequest_bounded_witness:
  "(1::int) \<le> 2 \<and>
   int (attempts (snd (retryRequest
      (\<lambda>i. Inl (ApiErr (ApiError ''down'' (500 + i) NoData)) :: js_exn + unit) 2 1000))) \<le> 2 \<and>
   retryRequest
      (\<lambda>i. Inl (ApiErr (ApiError ''down'' (500 + i) NoData)) :: js_exn + unit) 2 1000
     = (Inl (ApiErr (ApiError ''down'' 501 NoData)), [Attempt 0, Sleep 1000, Attempt 1])"
proof -
  let ?f = "\<lambda>i. Inl (ApiErr (ApiError ''down'' (500 + i) NoData)) :: js_exn + unit"
  have h: "(1::int) \<le> 2" by simp
  have all: "\<forall>i. int i < 2 \<longrightarrow> (\<exists>e. ?f i = Inl e \<and> \<not> is_client_error e)"
    by (simp add: is_client_error_def ApiError_def)
  have "nat (2 - 1) = Suc 0" "[0..<Suc 0] = [0]" by simp_all
  with retryRequest_bounded [OF h, of ?f 1000] all h show ?thesis
    by (simp add: attempts_def)
qed

section \<open>Properties of request\<close>











text \<open>
  A 401 response whose body \<open>parseResponse\<close> reads, with storage available: the
  credentials are cleared, the location becomes \<open>/login\<close>, and the call rejects with
  the 401 \<open>ApiError\<close>.
\<close>

lemma request_401_parsed:
  assumes hdrs: "buildHeaders (case opt_requiresAuth options of None \<Rightarrow> True | Some r \<Rightarrow> r)
                   (Some (case opt_headers options of None \<Rightarrow> [] | Some h \<Rightarrow> h)) None b = Inr hs"
    and resp: "fetch (request_url (case opt_baseURL options of None \<Rightarrow> API_URL env | Some u \<Rightarrow> u) endpoint)
                 (opt_init options) hs (case opt_timeout options of None \<Rightarrow> 30000 | Some t \<Rightarrow> t) = Inr r"
    and st: "resp_status r = 401"
    and parsed: "parseResponse r = Inr d"
  shows "\<exists>b'. request env None fetch endpoint options b =
                 (Inl (ApiErr (ApiError MSG_UNAUTHORIZED 401 (Parsed d))), b') \<and>
              storage b' STORAGE_TOKEN = None \<and> storage b' STORAGE_USER = None \<and>
              storage b' STORAGE_REFRESH_TOKEN = None \<and> href b' = ''/login''"
  using assms
  by (simp add: request_def Let_def request_try_def fetchWithTimeout_def handle_response_def
        HTTP_UNAUTHORIZED_def request_catch_def redirectToLogin_def clearAuthData_def
        with_storage_def removeItem_def)

text \<open>
  C1. The body is parsed before the status is looked at. A 401 response that announces
  JSON and carries no parsable body makes \<open>json()\<close> reject; the \<open>catch\<close> block wraps
  that into an \<open>ApiError\<close> of status 0, and the stored credentials and the location
  stay as they were.
\<close>

theorem request_401_unparsed_body:
  "request None None
     (\<lambda>url init hdrs tmo. Inr \<lparr>resp_status = 401, content_type = Some ''application/json'',
        resp_json = Inl (JsError ''SyntaxError'' ''Unexpected end of JSON input''),
        resp_text = Inr [], resp_blob = Inr ()\<rparr>)
     ''/users/me'' no_options
     \<lparr>storage = [''company_token'' \<mapsto> ''abc'', ''company_user'' \<mapsto> ''{}'',
                  ''company_refresh_token'' \<mapsto> ''xyz''],
       href = ''/dashboard''\<rparr>
   = (Inl (ApiErr \<lparr>err_message = ''Unexpected end of JSON input'', err_status = 0,
         err_data = Caught (JsError ''SyntaxError'' ''Unexpected end of JSON input''),
         err_errors = None\<rparr>),
      \<lparr>storage = [''company_token'' \<mapsto> ''abc'', ''company_user'' \<mapsto> ''{}'',
                  ''company_refresh_token'' \<mapsto> ''xyz''],
       href = ''/dashboard''\<rparr>)"
  by (simp add: request_def Let_def request_try_def fetchWithTimeout_def parseResponse_def
        buildHeaders_def getAuthToken_def with_storage_def getItem_def STORAGE_TOKEN_def
        no_options_def request_catch_def ApiError_def optional_errors_def)

end
